theory Spec2Isabelle
  imports Main "HOL-Library.Word"
begin

section \<open>Serial image capture: receiver state machine, raw-image decoding, image handoff\<close>

text \<open>
  The development follows \<^verbatim>\<open>serial-image-capture.py\<close>. The receiver thread
  (\<^verbatim>\<open>ImageRxTask.run\<close>) reads the serial port one byte at a time into \<^verbatim>\<open>rx_buf\<close>,
  recognises the two base64 prefixes, and on a line feed decodes the line and hands the
  image to the GUI (\<^verbatim>\<open>GUI.update_image\<close>), which the display loop
  (\<^verbatim>\<open>GUI.refresh_image\<close>) picks up through a lock used as a "fresh" flag.
\<close>

subsection \<open>Bytes and exceptions\<close>

type_synonym byte = "8 word"

datatype exn =
    IndexError | ValueError | UnboundLocalError | RuntimeError
  | BinasciiError | ImageError | SerialException

text \<open>Python's \<^verbatim>\<open>xs[a:b]\<close> for \<open>0 \<le> a \<le> b\<close> and \<^verbatim>\<open>xs[:-2]\<close>: slices never raise.\<close>

definition slice :: "nat \<Rightarrow> nat \<Rightarrow> 'a list \<Rightarrow> 'a list" where
  "slice a b xs = take (b - a) (drop a xs)"

definition strip2 :: "'a list \<Rightarrow> 'a list" where
  "strip2 xs = take (length xs - 2) xs"

text \<open>\<^verbatim>\<open>int.from_bytes(bs, 'little')\<close>: an unbounded non-negative integer.\<close>

fun from_bytes_little :: "byte list \<Rightarrow> nat" where
  "from_bytes_little [] = 0"
| "from_bytes_little (b # bs) = unat b + 256 * from_bytes_little bs"

subsection \<open>Constants of the source\<close>

definition EIML_HEADER_SIZE :: nat where "EIML_HEADER_SIZE = 12"
definition EIML_SOF_SIZE :: nat where "EIML_SOF_SIZE = 3"
definition EIML_FORMAT_SIZE :: nat where "EIML_FORMAT_SIZE = 1"
definition EIML_WIDTH_SIZE :: nat where "EIML_WIDTH_SIZE = 4"
definition EIML_HEIGHT_SIZE :: nat where "EIML_HEIGHT_SIZE = 4"

text \<open>\<^verbatim>\<open>b'/6D/'\<close> and \<^verbatim>\<open>b'/9j/'\<close> as bytes.\<close>

definition EIML_SOF_B64 :: "byte list" where
  "EIML_SOF_B64 = [0x2F, 0x36, 0x44, 0x2F]"

definition JPEG_SOF_B64 :: "byte list" where
  "JPEG_SOF_B64 = [0x2F, 0x39, 0x6A, 0x2F]"

definition EIML_RESERVED :: byte where "EIML_RESERVED = 0"
definition EIML_GRAYSCALE :: byte where "EIML_GRAYSCALE = 1"
definition EIML_RGB888 :: byte where "EIML_RGB888 = 2"


subsection \<open>Base64 (Python standard library)\<close>

text \<open>
  Modelled from the spec: \<^verbatim>\<open>base64.b64decode\<close> is a standard-library call and not part
  of the source; the spec says "Base64-decode the payload. Decode failure -> reject frame".
  The model is the library's non-validating decoder (\<^verbatim>\<open>binascii.a2b_base64\<close>): bytes
  outside the alphabet are skipped, a complete pad sequence ends the input, and leftover
  characters of an unfinished quad are an error.
\<close>

definition table_a2b_base64 :: "byte \<Rightarrow> nat option" where
  "table_a2b_base64 c =
     (let n = unat c in
      if 65 \<le> n \<and> n \<le> 90 then Some (n - 65)
      else if 97 \<le> n \<and> n \<le> 122 then Some (n - 71)
      else if 48 \<le> n \<and> n \<le> 57 then Some (n + 4)
      else if n = 43 then Some 62
      else if n = 47 then Some 63
      else None)"

definition BASE64_PAD :: byte where "BASE64_PAD = 0x3D"

text \<open>
  \<open>a2b_base64 quad_pos leftchar pads cs\<close>: the decoder loop with its three state
  variables; the output bytes are returned in order, \<open>None\<close> is \<^verbatim>\<open>binascii.Error\<close>.
\<close>

fun a2b_base64 :: "nat \<Rightarrow> nat \<Rightarrow> nat \<Rightarrow> byte list \<Rightarrow> byte list option" where
  "a2b_base64 quad_pos leftchar pads [] = (if quad_pos \<noteq> 0 then None else Some [])"
| "a2b_base64 quad_pos leftchar pads (c # cs) =
     (if c = BASE64_PAD then
        (if quad_pos \<ge> 2 \<and> quad_pos + (pads + 1) \<ge> 4 then Some []
         else a2b_base64 quad_pos leftchar (if quad_pos \<ge> 2 then pads + 1 else pads) cs)
      else
        (case table_a2b_base64 c of
           None \<Rightarrow> a2b_base64 quad_pos leftchar pads cs
         | Some v \<Rightarrow>
             (if quad_pos = 0 then a2b_base64 1 v 0 cs
              else if quad_pos = 1 then
                map_option ((#) (of_nat (leftchar * 4 + v div 16)))
                  (a2b_base64 2 (v mod 16) 0 cs)
              else if quad_pos = 2 then
                map_option ((#) (of_nat (leftchar * 16 + v div 4)))
                  (a2b_base64 3 (v mod 4) 0 cs)
              else
                map_option ((#) (of_nat (leftchar * 64 + v)))
                  (a2b_base64 0 0 0 cs))))"

definition b64decode :: "byte list \<Rightarrow> exn + byte list" where
  "b64decode s = (case a2b_base64 0 0 0 s of None \<Rightarrow> Inl BinasciiError | Some bs \<Rightarrow> Inr bs)"

text \<open>
  Modelled from the spec: the sender's side, "the base64 encoding of" a byte sequence
  (\<^verbatim>\<open>base64.b64encode\<close>, standard alphabet with \<^verbatim>\<open>=\<close> padding). It is used only to
  state the scenario of a well-formed frame.
\<close>

definition table_b2a_base64 :: "nat \<Rightarrow> byte" where
  "table_b2a_base64 v =
     (if v < 26 then of_nat (v + 65)
      else if v < 52 then of_nat (v + 71)
      else if v < 62 then of_nat (v - 4)
      else if v = 62 then 43
      else 47)"

fun b64encode :: "byte list \<Rightarrow> byte list" where
  "b64encode [] = []"
| "b64encode [a] =
     [table_b2a_base64 (unat a div 4), table_b2a_base64 ((unat a mod 4) * 16),
      BASE64_PAD, BASE64_PAD]"
| "b64encode [a, b] =
     [table_b2a_base64 (unat a div 4),
      table_b2a_base64 ((unat a mod 4) * 16 + unat b div 16),
      table_b2a_base64 ((unat b mod 16) * 4), BASE64_PAD]"
| "b64encode (a # b # c # rest) =
     table_b2a_base64 (unat a div 4) #
     table_b2a_base64 ((unat a mod 4) * 16 + unat b div 16) #
     table_b2a_base64 ((unat b mod 16) * 4 + unat c div 64) #
     table_b2a_base64 (unat c mod 64) # b64encode rest"

subsection \<open>Images (Pillow)\<close>

datatype im_mode = L | RGB

record image =
  im_mode :: im_mode
  im_size :: "nat \<times> nat"
  im_data :: "byte list"

definition bytes_per_pixel :: "im_mode \<Rightarrow> nat" where
  "bytes_per_pixel m = (case m of L \<Rightarrow> 1 | RGB \<Rightarrow> 3)"

text \<open>
  Modelled from the spec: \<^verbatim>\<open>Image.frombytes(mode, (width, height), data, 'raw')\<close> is a
  Pillow call and not part of the source. The spec: "Compute expected payload length from
  width, height, and bytes-per-pixel (1 for Grayscale, 3 for RGB888); reject if the
  remaining bytes are fewer than required" and "the remaining bytes are already row-major
  RGB; copy directly". Pillow raises \<^verbatim>\<open>ValueError\<close> ("not enough image data") on short
  data; the image holds the first \<open>width * height * bytes per pixel\<close> bytes.
\<close>

definition Image_frombytes :: "im_mode \<Rightarrow> nat \<times> nat \<Rightarrow> byte list \<Rightarrow> exn + image" where
  "Image_frombytes m sz data =
     (let n = fst sz * snd sz * bytes_per_pixel m in
      if length data < n then Inl ValueError
      else Inr \<lparr>im_mode = m, im_size = sz, im_data = take n data\<rparr>)"

text \<open>
  Modelled from the spec: \<^verbatim>\<open>img.convert(mode='RGB')\<close> is a Pillow call and not part of
  the source. The spec: "For Grayscale: replicate each byte into three channels to produce
  RGB888".
\<close>

definition convert_RGB :: "image \<Rightarrow> image" where
  "convert_RGB im =
     (case im_mode im of
        RGB \<Rightarrow> im
      | L \<Rightarrow> im\<lparr>im_mode := RGB, im_data := concat (map (\<lambda>b. [b, b, b]) (im_data im))\<rparr>)"

subsection \<open>The GUI side: \<^verbatim>\<open>update_image\<close> and \<^verbatim>\<open>refresh_image\<close>\<close>

text \<open>
  \<^verbatim>\<open>self.img\<close> (unset until the first update) and the state of \<^verbatim>\<open>self.img_mutex\<close>.
  The constructor acquires the lock, so the GUI starts with the lock held and no image.
\<close>

record gui =
  gui_img :: "image option"
  img_mutex_locked :: bool

definition gui_init :: gui where
  "gui_init = \<lparr>gui_img = None, img_mutex_locked = True\<rparr>"

text \<open>
  \<^verbatim>\<open>update_image\<close>: store the image, then release the lock. Releasing a
  \<^verbatim>\<open>threading.Lock\<close> that is not held raises \<^verbatim>\<open>RuntimeError\<close>; the image has been
  stored by then.
\<close>

definition update_image :: "gui \<Rightarrow> image \<Rightarrow> gui \<times> exn option" where
  "update_image g im =
     (let g1 = g\<lparr>gui_img := Some im\<rparr> in
      if img_mutex_locked g1 then (g1\<lparr>img_mutex_locked := False\<rparr>, None)
      else (g1, Some RuntimeError))"

text \<open>
  \<^verbatim>\<open>refresh_image\<close>: \<^verbatim>\<open>acquire(blocking=False)\<close> succeeds exactly when the lock is
  free and then holds it; only then is \<^verbatim>\<open>self.img\<close> read and drawn. The result is the
  image drawn on this tick, if any, and the new GUI state.
\<close>

definition refresh_image :: "gui \<Rightarrow> image option \<times> gui" where
  "refresh_image g =
     (if \<not> img_mutex_locked g then (gui_img g, g\<lparr>img_mutex_locked := True\<rparr>)
      else (None, g))"

subsection \<open>The receiver thread: \<^verbatim>\<open>ImageRxTask.run\<close>\<close>

datatype rx_mode = RX_STRING | RX_JPEG | RX_EIML

text \<open>
  What the receiver hands on: \<open>Emit k p\<close> when the line \<open>p\<close> (line ending removed)
  collected in mode \<open>k\<close> is given to \<^verbatim>\<open>b64decode\<close>, \<open>Publish im\<close> when
  \<^verbatim>\<open>self.gui.update_image(im)\<close> is called.
\<close>

datatype event = Emit rx_mode "byte list" | Publish image

text \<open>
  The local variables of \<^verbatim>\<open>run\<close> that live across loop iterations. \<^verbatim>\<open>idx\<close> and
  \<^verbatim>\<open>img\<close> are unbound (\<open>None\<close>) until their first assignment and keep their last
  value afterwards. \<open>gui\<close> is the GUI object the thread updates; \<open>log\<close> records the
  events in order.
\<close>

record rx_state =
  rx_mode :: rx_mode
  rx_buf :: "byte list"
  idx :: "nat option"
  img :: "image option"
  gui :: gui
  log :: "event list"

definition rx_init :: rx_state where
  "rx_init = \<lparr>rx_mode = RX_STRING, rx_buf = [], idx = None, img = None,
              gui = gui_init, log = []\<rparr>"

text \<open>
  \<^verbatim>\<open>self.gui.update_image(img)\<close> as evaluated in \<^verbatim>\<open>run\<close>: reading an unbound
  \<^verbatim>\<open>img\<close> raises \<^verbatim>\<open>UnboundLocalError\<close>. The flag says whether an exception was raised.
\<close>

definition call_update_image :: "rx_state \<Rightarrow> rx_state \<times> bool" where
  "call_update_image s =
     (case img s of
        None \<Rightarrow> (s, True)
      | Some im \<Rightarrow>
          (case update_image (gui s) im of
             (g, e) \<Rightarrow> (s\<lparr>gui := g, log := log s @ [Publish im]\<rparr>, e \<noteq> None)))"

text \<open>
  The body of the \<^verbatim>\<open>try\<close> of the JPEG branch. \<open>Image_open\<close> stands for
  \<^verbatim>\<open>Image.open(io.BytesIO(img_dec))\<close>, the compressed-image decoder, which is not part
  of the source and is taken as a parameter.
\<close>

definition jpeg_try :: "(byte list \<Rightarrow> exn + image) \<Rightarrow> rx_state \<Rightarrow> rx_state \<times> bool" where
  "jpeg_try Image_open s =
     (case b64decode (rx_buf s) of
        Inl e \<Rightarrow> (s, True)
      | Inr img_dec \<Rightarrow>
          (case Image_open img_dec of
             Inl e \<Rightarrow> (s, True)
           | Inr im \<Rightarrow> call_update_image (s\<lparr>img := Some im\<rparr>)))"

text \<open>
  The body of the \<^verbatim>\<open>try\<close> of the EIML branch, statement by statement. \<^verbatim>\<open>msg_dec[idx]\<close>
  raises \<^verbatim>\<open>IndexError\<close> on a message of at most three bytes; the two slices for width
  and height never raise. A format other than RGB888 and grayscale assigns nothing to
  \<^verbatim>\<open>img\<close> and goes on to \<^verbatim>\<open>update_image(img)\<close>.
\<close>

definition eiml_try :: "rx_state \<Rightarrow> rx_state \<times> bool" where
  "eiml_try s =
     (case b64decode (rx_buf s) of
        Inl e \<Rightarrow> (s, True)
      | Inr msg_dec \<Rightarrow>
          (let i0 = EIML_SOF_SIZE in
           if length msg_dec \<le> i0 then (s\<lparr>idx := Some i0\<rparr>, True)
           else
             let format = msg_dec ! i0;
                 i1 = i0 + EIML_FORMAT_SIZE;
                 width = from_bytes_little (slice i1 (i1 + EIML_WIDTH_SIZE) msg_dec);
                 i2 = i1 + EIML_WIDTH_SIZE;
                 height = from_bytes_little (slice i2 (i2 + EIML_HEIGHT_SIZE) msg_dec);
                 i3 = i2 + EIML_HEIGHT_SIZE;
                 s1 = s\<lparr>idx := Some i3\<rparr>
             in
               if format = EIML_RGB888 then
                 (case Image_frombytes RGB (width, height) (drop i3 msg_dec) of
                    Inl e \<Rightarrow> (s1, True)
                  | Inr im \<Rightarrow> call_update_image (s1\<lparr>img := Some im\<rparr>))
               else if format = EIML_GRAYSCALE then
                 (case Image_frombytes L (width, height) (drop i3 msg_dec) of
                    Inl e \<Rightarrow> (s1, True)
                  | Inr im \<Rightarrow> call_update_image (s1\<lparr>img := Some (convert_RGB im)\<rparr>))
               else call_update_image s1))"

text \<open>
  One pass of the inner loop after \<^verbatim>\<open>self.ser.read()\<close> has returned the byte \<open>b\<close>.
  The second component says whether an exception left the inner loop for the outer
  \<^verbatim>\<open>except\<close>: that happens only when the EIML handler runs \<^verbatim>\<open>print(idx)\<close> with
  \<^verbatim>\<open>idx\<close> still unbound, and then the final \<^verbatim>\<open>rx_buf = b''\<close> is skipped.
  Console output (\<^verbatim>\<open>print\<close>) is not part of the state.
\<close>

definition rx_byte :: "(byte list \<Rightarrow> exn + image) \<Rightarrow> rx_state \<Rightarrow> byte \<Rightarrow> rx_state \<times> bool" where
  "rx_byte Image_open s b =
     (let buf = rx_buf s @ [b];
          m0 = rx_mode s;
          m1 = (if m0 = RX_STRING \<and> buf = JPEG_SOF_B64 then RX_JPEG else m0);
          m2 = (if m0 = RX_STRING \<and> buf = EIML_SOF_B64 then RX_EIML else m1)
      in
        if last buf = 10 then
          (case m2 of
             RX_STRING \<Rightarrow> (s\<lparr>rx_mode := m2, rx_buf := []\<rparr>, False)
           | RX_JPEG \<Rightarrow>
               (let p = strip2 buf;
                    s0 = s\<lparr>rx_mode := RX_STRING, rx_buf := p, log := log s @ [Emit RX_JPEG p]\<rparr>
                in (fst (jpeg_try Image_open s0)\<lparr>rx_buf := []\<rparr>, False))
           | RX_EIML \<Rightarrow>
               (let p = strip2 buf;
                    s0 = s\<lparr>rx_mode := RX_STRING, rx_buf := p, log := log s @ [Emit RX_EIML p]\<rparr>;
                    r = eiml_try s0
                in if snd r \<and> idx (fst r) = None then (fst r, True)
                   else (fst r\<lparr>rx_buf := []\<rparr>, False)))
        else (s\<lparr>rx_mode := m2, rx_buf := buf\<rparr>, False))"

text \<open>
  The inner \<^verbatim>\<open>while(self.ser.in_waiting)\<close> loop on the bytes waiting in the port: it
  reads until none is left or an exception leaves it; the unread bytes stay in the port.
\<close>

fun inner_loop ::
  "(byte list \<Rightarrow> exn + image) \<Rightarrow> rx_state \<Rightarrow> byte list \<Rightarrow> rx_state \<times> byte list" where
  "inner_loop Image_open s [] = (s, [])"
| "inner_loop Image_open s (b # bs) =
     (case rx_byte Image_open s b of
        (s', True) \<Rightarrow> (s', bs)
      | (s', False) \<Rightarrow> inner_loop Image_open s' bs)"

text \<open>
  The receiver fed with a whole byte sequence, one byte per \<^verbatim>\<open>read()\<close>, whatever
  the loop iteration it is read in.
\<close>

definition rx_bytes :: "(byte list \<Rightarrow> exn + image) \<Rightarrow> rx_state \<Rightarrow> byte list \<Rightarrow> rx_state" where
  "rx_bytes Image_open s bs = foldl (\<lambda>t b. fst (rx_byte Image_open t b)) s bs"

text \<open>
  The outer \<^verbatim>\<open>while True\<close> loop and the transport. \<open>Arrive c\<close>: the chunk \<open>c\<close> reaches
  the port's input queue. \<open>Poll\<close>: one iteration of the outer loop, which runs the
  inner loop on what is waiting. A configuration is the receiver state and the queue.
\<close>

datatype action = Arrive "byte list" | Poll

fun exec ::
  "(byte list \<Rightarrow> exn + image) \<Rightarrow> rx_state \<times> byte list \<Rightarrow> action list \<Rightarrow> rx_state \<times> byte list" where
  "exec Image_open cfg [] = cfg"
| "exec Image_open (s, q) (Arrive c # as) = exec Image_open (s, q @ c) as"
| "exec Image_open (s, q) (Poll # as) = exec Image_open (inner_loop Image_open s q) as"

fun arrived :: "action list \<Rightarrow> byte list" where
  "arrived [] = []"
| "arrived (Arrive c # as) = c @ arrived as"
| "arrived (Poll # as) = arrived as"

text \<open>
  The outer loop iterating until the queue is empty. Every pass of the inner loop on a
  non-empty queue reads at least one byte, so the test on the lengths always succeeds.
\<close>

function drain :: "(byte list \<Rightarrow> exn + image) \<Rightarrow> rx_state \<Rightarrow> byte list \<Rightarrow> rx_state" where
  "drain Image_open s q =
     (if q = [] then s
      else let r = inner_loop Image_open s q in
             if length (snd r) < length q then drain Image_open (fst r) (snd r) else fst r)"
  by pat_completeness auto
termination
  by (relation "measure (\<lambda>(f, s, q). length q)") (auto simp: case_prod_beta)

declare drain.simps [simp del]

text \<open>
  The two threads together, for properties of the states the program can be in: the
  receiver reads a byte (\<open>Rx b\<close>), or the display loop runs \<^verbatim>\<open>refresh_image\<close>
  (\<open>Refresh\<close>), which changes the GUI object only. \<open>sys_run\<close> starts from the initial
  state.
\<close>

datatype thread_step = Rx byte | Refresh

fun sys_step :: "(byte list \<Rightarrow> exn + image) \<Rightarrow> rx_state \<Rightarrow> thread_step \<Rightarrow> rx_state" where
  "sys_step Image_open s (Rx b) = fst (rx_byte Image_open s b)"
| "sys_step Image_open s Refresh = s\<lparr>gui := snd (refresh_image (gui s))\<rparr>"

definition sys_run :: "(byte list \<Rightarrow> exn + image) \<Rightarrow> thread_step list \<Rightarrow> rx_state" where
  "sys_run Image_open steps = foldl (sys_step Image_open) rx_init steps"

subsection \<open>The port: \<^verbatim>\<open>ImageRxTask.connect\<close>\<close>

datatype ret = OK | ERR

datatype ser_call = Close | Open string int

text \<open>
  Modelled from the spec: the \<^verbatim>\<open>serial.Serial\<close> object is pyserial's and not part of
  the source. The spec: "\<^verbatim>\<open>close()\<close>: idempotent; safe to call when not connected" and
  "connect failure guarantees the endpoint remains closed". \<open>calls\<close> records the calls
  of \<^verbatim>\<open>close\<close> and \<^verbatim>\<open>open\<close> in order. Whether a port can be opened at a rate is the
  environment's answer \<open>can_open\<close>. Assigning a negative \<^verbatim>\<open>baudrate\<close> raises
  \<^verbatim>\<open>ValueError\<close>; \<^verbatim>\<open>open()\<close> on an open port raises.
\<close>

record serial =
  is_open :: bool
  port :: "string option"
  baudrate :: int
  calls :: "ser_call list"

definition ser_init :: serial where
  "ser_init = \<lparr>is_open = False, port = None, baudrate = 9600, calls = []\<rparr>"

definition ser_close :: "serial \<Rightarrow> serial" where
  "ser_close s = s\<lparr>is_open := False, calls := calls s @ [Close]\<rparr>"

definition ser_set_baudrate :: "int \<Rightarrow> serial \<Rightarrow> exn + serial" where
  "ser_set_baudrate b s = (if b < 0 then Inl ValueError else Inr (s\<lparr>baudrate := b\<rparr>))"

definition ser_open :: "(string \<Rightarrow> int \<Rightarrow> bool) \<Rightarrow> serial \<Rightarrow> serial \<times> exn option" where
  "ser_open can_open s =
     (case port s of
        None \<Rightarrow> (s, Some SerialException)
      | Some p \<Rightarrow>
          (let s1 = s\<lparr>calls := calls s @ [Open p (baudrate s)]\<rparr> in
           if is_open s then (s1, Some SerialException)
           else if can_open p (baudrate s) then (s1\<lparr>is_open := True\<rparr>, None)
           else (s1, Some SerialException)))"

text \<open>
  \<^verbatim>\<open>connect\<close>: close inside a \<^verbatim>\<open>try\<close>, assign port and baud rate outside any
  \<^verbatim>\<open>try\<close> (so the \<^verbatim>\<open>ValueError\<close> of the assignment reaches the caller as an
  exception, \<open>Inl\<close>), then open inside a \<^verbatim>\<open>try\<close> whose handler returns \<^verbatim>\<open>ERR\<close>.
\<close>

definition connect ::
  "(string \<Rightarrow> int \<Rightarrow> bool) \<Rightarrow> serial \<Rightarrow> string \<Rightarrow> int \<Rightarrow> serial \<times> (exn + ret)" where
  "connect can_open ser p baud_rate =
     (let s1 = ser_close ser;
          s2 = s1\<lparr>port := Some p\<rparr>
      in case ser_set_baudrate baud_rate s2 of
           Inl e \<Rightarrow> (s2, Inl e)
         | Inr s3 \<Rightarrow>
             (case ser_open can_open s3 of
                (s4, None) \<Rightarrow> (s4, Inr OK)
              | (s4, Some e) \<Rightarrow> (s4, Inr ERR)))"

section \<open>Properties\<close>

subsection \<open>Auxiliary facts about the receiver\<close>

lemma strip2_snoc2: "strip2 (xs @ [a, b]) = xs"
  by (simp add: strip2_def)

lemma call_update_image_log:
  "log (fst (call_update_image s)) =
     log s @ (case img s of None \<Rightarrow> [] | Some im \<Rightarrow> [Publish im])"
  by (simp add: call_update_image_def split: option.splits prod.splits)

lemma call_update_image_fields:
  "rx_mode (fst (call_update_image s)) = rx_mode s"
  "rx_buf (fst (call_update_image s)) = rx_buf s"
  "idx (fst (call_update_image s)) = idx s"
  "img (fst (call_update_image s)) = img s"
  by (simp_all add: call_update_image_def split: option.splits prod.splits)



subsection \<open>Auxiliary facts about the loops\<close>

lemma rx_bytes_Cons:
  "rx_bytes Image_open s (b # bs) = rx_bytes Image_open (fst (rx_byte Image_open s b)) bs"
  by (simp add: rx_bytes_def)

lemma rx_bytes_append:
  "rx_bytes Image_open s (xs @ ys) = rx_bytes Image_open (rx_bytes Image_open s xs) ys"
  by (simp add: rx_bytes_def)

lemma inner_loop_reads:
  "rx_bytes Image_open (fst (inner_loop Image_open s q)) (snd (inner_loop Image_open s q))
     = rx_bytes Image_open s q"
proof (induction q arbitrary: s)
  case Nil
  show ?case by simp
next
  case (Cons b bs)
  show ?case
  proof (cases "rx_byte Image_open s b")
    case (Pair s' raised)
    with Cons show ?thesis
      by (cases raised) (simp_all add: rx_bytes_Cons)
  qed
qed

lemma inner_loop_shrinks:
  "q \<noteq> [] \<Longrightarrow> length (snd (inner_loop Image_open s q)) < length q"
proof (induction q arbitrary: s)
  case Nil
  then show ?case by simp
next
  case (Cons b bs)
  show ?case
  proof (cases "rx_byte Image_open s b")
    case (Pair s' raised)
    show ?thesis
    proof (cases "raised \<or> bs = []")
      case True
      with Pair show ?thesis by (cases raised) auto
    next
      case False
      with Pair Cons.IH [of s'] show ?thesis by simp
    qed
  qed
qed

lemma drain_rx_bytes: "drain Image_open s q = rx_bytes Image_open s q"
proof (induction Image_open s q rule: drain.induct)
  case (1 Image_open s q)
  show ?case
  proof (cases "q = []")
    case True
    then show ?thesis by (simp add: rx_bytes_def drain.simps)
  next
    case False
    let ?r = "inner_loop Image_open s q"
    have lt: "length (snd ?r) < length q"
      using False by (rule inner_loop_shrinks)
    have "drain Image_open s q = drain Image_open (fst ?r) (snd ?r)"
      using False lt by (subst drain.simps) (simp add: Let_def)
    also have "\<dots> = rx_bytes Image_open (fst ?r) (snd ?r)"
      using "1.IH" [OF False refl lt] .
    also have "\<dots> = rx_bytes Image_open s q"
      by (rule inner_loop_reads)
    finally show ?thesis .
  qed
qed

lemma exec_reads:
  "rx_bytes Image_open (fst (exec Image_open (s, q) as)) (snd (exec Image_open (s, q) as))
     = rx_bytes Image_open s (q @ arrived as)"
proof (induction as arbitrary: s q)
  case Nil
  show ?case by simp
next
  case (Cons a as)
  show ?case
  proof (cases a)
    case (Arrive c)
    with Cons [of s "q @ c"] show ?thesis by simp
  next
    case Poll
    obtain s' q' where r: "inner_loop Image_open s q = (s', q')"
      by (cases "inner_loop Image_open s q")
    have "rx_bytes Image_open s' q' = rx_bytes Image_open s q"
      using inner_loop_reads [of Image_open s q] r by simp
    with Poll r Cons [of s' q'] show ?thesis
      by (simp add: rx_bytes_append)
  qed
qed

subsection \<open>Auxiliary facts about base64\<close>

lemma unat_b2a:
  "v < 64 \<Longrightarrow> unat (table_b2a_base64 v) =
     (if v < 26 then v + 65 else if v < 52 then v + 71 else if v < 62 then v - 4
      else if v = 62 then 43 else 47)"
  unfolding table_b2a_base64_def
  by (simp only: unat_of_nat split: if_splits) auto

lemma b2a_a2b: "v < 64 \<Longrightarrow> table_a2b_base64 (table_b2a_base64 v) = Some v"
  by (auto simp: table_a2b_base64_def unat_b2a Let_def)

lemma b2a_not_pad: "v < 64 \<Longrightarrow> table_b2a_base64 v \<noteq> BASE64_PAD"
proof
  assume v: "v < 64" and e: "table_b2a_base64 v = BASE64_PAD"
  have "unat (table_b2a_base64 v) = 61" by (simp add: e BASE64_PAD_def)
  with v show False by (auto simp: unat_b2a split: if_splits)
qed

lemma b2a_not_lf: "v < 64 \<Longrightarrow> table_b2a_base64 v \<noteq> 10"
proof
  assume v: "v < 64" and e: "table_b2a_base64 v = 10"
  have "unat (table_b2a_base64 v) = 10" by (simp add: e)
  with v show False by (auto simp: unat_b2a split: if_splits)
qed

lemma a2b_step:
  "v < 64 \<Longrightarrow> a2b_base64 q l p (table_b2a_base64 v # cs) =
     (if q = 0 then a2b_base64 1 v 0 cs
      else if q = 1 then
        map_option ((#) (of_nat (l * 4 + v div 16))) (a2b_base64 2 (v mod 16) 0 cs)
      else if q = 2 then
        map_option ((#) (of_nat (l * 16 + v div 4))) (a2b_base64 3 (v mod 4) 0 cs)
      else map_option ((#) (of_nat (l * 64 + v))) (a2b_base64 0 0 0 cs))"
  by (simp add: b2a_a2b b2a_not_pad)

lemma byte_lt: "unat (a :: byte) < 256"
  using unsigned_less [of a] by simp

lemma sextets:
  "unat (a :: byte) div 4 < 64"
  "unat (a :: byte) mod 4 * 16 + unat (b :: byte) div 16 < 64"
  "unat (b :: byte) mod 16 * 4 + unat (c :: byte) div 64 < 64"
  "unat (c :: byte) mod 64 < 64"
  "unat (a :: byte) mod 4 * 16 < 64"
  "unat (b :: byte) mod 16 * 4 < 64"
  using byte_lt [of a] byte_lt [of b] byte_lt [of c] by simp_all

lemma join1:
  "of_nat (unat a div 4 * 4 + (unat a mod 4 * 16 + unat (b::byte) div 16) div 16) = (a :: byte)"
proof -
  have "unat a div 4 * 4 + (unat a mod 4 * 16 + unat b div 16) div 16 = unat a"
    using byte_lt [of b] by simp
  then show ?thesis by (simp only:) simp
qed

lemma join2:
  "of_nat ((unat a mod 4 * 16 + unat b div 16) mod 16 * 16
      + (unat b mod 16 * 4 + unat (c::byte) div 64) div 4) = (b :: byte)"
proof -
  have 1: "(unat a mod 4 * 16 + unat b div 16) mod 16 = unat b div 16"
    using byte_lt [of b] by simp
  have 2: "(unat b mod 16 * 4 + unat c div 64) div 4 = unat b mod 16"
    using byte_lt [of c] by simp
  have "(unat a mod 4 * 16 + unat b div 16) mod 16 * 16
      + (unat b mod 16 * 4 + unat c div 64) div 4 = unat b"
    by (simp only: 1 2) simp
  then show ?thesis by (simp only:) simp
qed

lemma join3:
  "of_nat ((unat b mod 16 * 4 + unat c div 64) mod 4 * 64 + unat c mod 64) = (c :: byte)"
proof -
  have 1: "(unat b mod 16 * 4 + unat c div 64) mod 4 = unat c div 64"
    using byte_lt [of c] by simp
  have "(unat b mod 16 * 4 + unat c div 64) mod 4 * 64 + unat c mod 64 = unat c"
    by (simp only: 1) simp
  then show ?thesis by (simp only:) simp
qed

lemma join1': "of_nat (unat a div 4 * 4 + unat a mod 4 * 16 div 16) = (a :: byte)"
proof -
  have "unat a div 4 * 4 + unat a mod 4 * 16 div 16 = unat a"
    by simp
  then show ?thesis by (simp only:) simp
qed

lemma join2':
  "of_nat ((unat a mod 4 * 16 + unat b div 16) mod 16 * 16 + unat b mod 16 * 4 div 4) = (b :: byte)"
proof -
  have 1: "(unat a mod 4 * 16 + unat b div 16) mod 16 = unat b div 16"
    using byte_lt [of b] by simp
  have "(unat a mod 4 * 16 + unat b div 16) mod 16 * 16 + unat b mod 16 * 4 div 4 = unat b"
    by (simp only: 1) simp
  then show ?thesis by (simp only:) simp
qed

lemma a2b_quad:
  assumes "v0 < 64" "v1 < 64" "v2 < 64" "v3 < 64"
  shows "a2b_base64 0 0 0
           (table_b2a_base64 v0 # table_b2a_base64 v1 # table_b2a_base64 v2
              # table_b2a_base64 v3 # cs)
         = map_option (\<lambda>r. of_nat (v0 * 4 + v1 div 16) # of_nat (v1 mod 16 * 16 + v2 div 4)
                          # of_nat (v2 mod 4 * 64 + v3) # r)
             (a2b_base64 0 0 0 cs)"
  using assms by (simp add: a2b_step option.map_comp o_def del: a2b_base64.simps)

lemma a2b_pad1:
  assumes "v0 < 64" "v1 < 64" "v2 < 64"
  shows "a2b_base64 0 0 0
           [table_b2a_base64 v0, table_b2a_base64 v1, table_b2a_base64 v2, BASE64_PAD]
         = Some [of_nat (v0 * 4 + v1 div 16), of_nat (v1 mod 16 * 16 + v2 div 4)]"
proof -
  have "a2b_base64 3 (v2 mod 4) 0 [BASE64_PAD] = Some []"
    by simp
  with assms show ?thesis
    by (simp add: a2b_step del: a2b_base64.simps)
qed

lemma a2b_pad2:
  assumes "v0 < 64" "v1 < 64"
  shows "a2b_base64 0 0 0
           [table_b2a_base64 v0, table_b2a_base64 v1, BASE64_PAD, BASE64_PAD]
         = Some [of_nat (v0 * 4 + v1 div 16)]"
proof -
  have "a2b_base64 2 (v1 mod 16) 0 [BASE64_PAD, BASE64_PAD] = Some []"
    by simp
  with assms show ?thesis
    by (simp add: a2b_step del: a2b_base64.simps)
qed

lemma a2b_b64encode: "a2b_base64 0 0 0 (b64encode xs) = Some xs"
proof (induction xs rule: b64encode.induct)
  case 1
  show ?case by simp
next
  case (2 a)
  show ?case
    by (simp only: b64encode.simps a2b_pad2 [OF sextets(1) sextets(5)] join1')
next
  case (3 a b)
  show ?case
    by (simp only: b64encode.simps a2b_pad1 [OF sextets(1) sextets(2) sextets(6)] join1 join2')
next
  case (4 a b c rest)
  show ?case
    by (simp only: b64encode.simps
          a2b_quad [OF sextets(1) sextets(2) sextets(3) sextets(4)] 4 join1 join2 join3
          option.map)
qed

lemma b64decode_b64encode: "b64decode (b64encode xs) = Inr xs"
  by (simp add: b64decode_def a2b_b64encode)

lemma b64encode_no_lf: "10 \<notin> set (b64encode xs)"
  by (induction xs rule: b64encode.induct)
     (simp_all add: sextets b2a_not_lf [symmetric, THEN not_sym] BASE64_PAD_def)


subsection \<open>Auxiliary facts about collecting a line\<close>

lemma rx_byte_collect:
  "rx_mode s \<noteq> RX_STRING \<Longrightarrow> b \<noteq> 10 \<Longrightarrow>
     rx_byte Image_open s b = (s\<lparr>rx_buf := rx_buf s @ [b]\<rparr>, False)"
  by (simp add: rx_byte_def Let_def)

lemma rx_bytes_collect:
  "rx_mode s \<noteq> RX_STRING \<Longrightarrow> 10 \<notin> set bs \<Longrightarrow>
     rx_bytes Image_open s bs = s\<lparr>rx_buf := rx_buf s @ bs\<rparr>"
proof (induction bs arbitrary: s)
  case Nil
  show ?case by (simp add: rx_bytes_def)
next
  case (Cons b bs)
  from Cons.prems have b: "b \<noteq> 10" and bs: "10 \<notin> set bs" by auto
  have m: "rx_mode (s\<lparr>rx_buf := rx_buf s @ [b]\<rparr>) \<noteq> RX_STRING"
    using Cons.prems by simp
  show ?case
    using Cons.IH [OF m bs] Cons.prems(1) b
    by (simp add: rx_bytes_def rx_byte_collect)
qed

lemma rx_bytes_sof:
  "rx_mode s = RX_STRING \<Longrightarrow> rx_buf s = [] \<Longrightarrow>
     rx_bytes Image_open s EIML_SOF_B64 = s\<lparr>rx_mode := RX_EIML, rx_buf := EIML_SOF_B64\<rparr>"
  by (simp add: rx_bytes_def rx_byte_def Let_def EIML_SOF_B64_def JPEG_SOF_B64_def)

lemma b64encode_sof:
  "b64encode (0xFF # 0xA0 # 0xFF # rest) = EIML_SOF_B64 @ b64encode rest"
  by (simp add: EIML_SOF_B64_def table_b2a_base64_def)

lemma rx_byte_eiml_lf:
  "rx_mode s = RX_EIML \<Longrightarrow>
     rx_byte Image_open s 10 =
       (let p = strip2 (rx_buf s @ [10]);
            r = eiml_try (s\<lparr>rx_mode := RX_STRING, rx_buf := p, log := log s @ [Emit RX_EIML p]\<rparr>)
        in if snd r \<and> idx (fst r) = None then (fst r, True)
           else (fst r\<lparr>rx_buf := []\<rparr>, False))"
  by (simp add: rx_byte_def Let_def)

lemma eiml_line:
  assumes m: "rx_mode s = RX_STRING" and e: "rx_buf s = []"
  shows "rx_bytes Image_open s (b64encode (0xFF # 0xA0 # 0xFF # rest) @ [13, 10]) =
     (let p = b64encode (0xFF # 0xA0 # 0xFF # rest);
          r = eiml_try (s\<lparr>rx_mode := RX_STRING, rx_buf := p, log := log s @ [Emit RX_EIML p]\<rparr>)
      in if snd r \<and> idx (fst r) = None then fst r else fst r\<lparr>rx_buf := []\<rparr>)"
proof -
  let ?p = "b64encode (0xFF # 0xA0 # 0xFF # rest)"
  let ?s1 = "s\<lparr>rx_mode := RX_EIML, rx_buf := EIML_SOF_B64\<rparr>"
  let ?s2 = "s\<lparr>rx_mode := RX_EIML, rx_buf := ?p @ [13]\<rparr>"
  have nolf: "10 \<notin> set (b64encode rest @ [13])"
    using b64encode_no_lf [of rest] by simp
  have "rx_bytes Image_open s (?p @ [13]) = rx_bytes Image_open ?s1 (b64encode rest @ [13])"
    by (simp only: b64encode_sof append_assoc rx_bytes_append rx_bytes_sof [OF m e])
  also have "\<dots> = ?s2"
    using rx_bytes_collect [of ?s1 "b64encode rest @ [13]" Image_open] nolf
    by (simp add: b64encode_sof del: b64encode.simps)
  finally have 1: "rx_bytes Image_open s (?p @ [13]) = ?s2" .
  have "rx_bytes Image_open s (?p @ [13, 10]) = fst (rx_byte Image_open ?s2 10)"
    using rx_bytes_append [of Image_open s "?p @ [13]" "[10]"] 1
    by (simp add: rx_bytes_def del: b64encode.simps)
  also have "\<dots> = (let r = eiml_try (s\<lparr>rx_mode := RX_STRING, rx_buf := ?p, log := log s @ [Emit RX_EIML ?p]\<rparr>)
      in if snd r \<and> idx (fst r) = None then fst r else fst r\<lparr>rx_buf := []\<rparr>)"
    by (simp add: rx_byte_eiml_lf strip2_def Let_def del: b64encode.simps)
  finally show ?thesis by (simp add: Let_def del: b64encode.simps)
qed


lemma eiml_try_rgb:
  assumes "rx_buf s = b64encode (0xFF # 0xA0 # 0xFF # 2 # 4 # 0 # 0 # 0 # 2 # 0 # 0 # 0 # data)"
    and "length data = 24"
  shows "fst (eiml_try s) =
           s\<lparr>idx := Some 12,
             img := Some \<lparr>im_mode = RGB, im_size = (4, 2), im_data = data\<rparr>,
             gui := (gui s)\<lparr>gui_img := Some \<lparr>im_mode = RGB, im_size = (4, 2), im_data = data\<rparr>,
                            img_mutex_locked := False\<rparr>,
             log := log s @ [Publish \<lparr>im_mode = RGB, im_size = (4, 2), im_data = data\<rparr>]\<rparr>"
  using assms
  by (simp add: eiml_try_def b64decode_b64encode Let_def slice_def
        EIML_SOF_SIZE_def EIML_FORMAT_SIZE_def EIML_WIDTH_SIZE_def EIML_HEIGHT_SIZE_def
        EIML_RGB888_def EIML_GRAYSCALE_def Image_frombytes_def bytes_per_pixel_def
        call_update_image_def update_image_def
      del: b64encode.simps)

subsection \<open>Auxiliary facts about decoding\<close>

lemma replicate3_length: "length (concat (map (\<lambda>b. [b, b, b]) xs)) = 3 * length xs"
  by (induction xs) simp_all

lemma replicate3_nth:
  "i < length xs \<Longrightarrow>
     concat (map (\<lambda>b. [b, b, b]) xs) ! (3 * i) = xs ! i
     \<and> concat (map (\<lambda>b. [b, b, b]) xs) ! (3 * i + 1) = xs ! i
     \<and> concat (map (\<lambda>b. [b, b, b]) xs) ! (3 * i + 2) = xs ! i"
proof (induction xs arbitrary: i)
  case Nil
  then show ?case by simp
next
  case (Cons x xs)
  show ?case
  proof (cases i)
    case 0
    then show ?thesis by simp
  next
    case (Suc j)
    with Cons.prems have j: "j < length xs" by simp
    have a: "3 * i = Suc (Suc (Suc (3 * j)))" using Suc by simp
    from Cons.IH [OF j] show ?thesis
      by (simp add: a Suc)
  qed
qed

lemma eiml_try_header:
  assumes dec: "b64decode (rx_buf s) = Inr msg" and len: "3 < length msg"
  shows "eiml_try s =
     (let width = from_bytes_little (slice 4 8 msg);
          height = from_bytes_little (slice 8 12 msg);
          s1 = s\<lparr>idx := Some 12\<rparr>
      in if msg ! 3 = EIML_RGB888 then
           (case Image_frombytes RGB (width, height) (drop 12 msg) of
              Inl e \<Rightarrow> (s1, True)
            | Inr im \<Rightarrow> call_update_image (s1\<lparr>img := Some im\<rparr>))
         else if msg ! 3 = EIML_GRAYSCALE then
           (case Image_frombytes L (width, height) (drop 12 msg) of
              Inl e \<Rightarrow> (s1, True)
            | Inr im \<Rightarrow> call_update_image (s1\<lparr>img := Some (convert_RGB im)\<rparr>))
         else call_update_image s1)"
  using len
  by (simp add: eiml_try_def dec Let_def
        EIML_SOF_SIZE_def EIML_FORMAT_SIZE_def EIML_WIDTH_SIZE_def EIML_HEIGHT_SIZE_def
      split: sum.splits)

subsection \<open>Auxiliary facts about the start marker\<close>










subsection \<open>The handoff between receiver and display\<close>

text \<open>
  The overwriting half of the handoff. \<^verbatim>\<open>update_image(B)\<close> after
  \<^verbatim>\<open>update_image(A)\<close> with no \<^verbatim>\<open>refresh_image\<close> in between stores \<open>B\<close> over
  \<open>A\<close>; the next \<^verbatim>\<open>refresh_image\<close> draws \<open>B\<close>, the one after it draws nothing;
  after any sequence of updates the display sees the last image. The second call ends in
  \<^verbatim>\<open>RuntimeError\<close> all the same.
\<close>

lemma update_image_latest_wins:
  "gui_img (fst (update_image (fst (update_image g A)) B)) = Some B
   \<and> snd (update_image (fst (update_image g A)) B) = Some RuntimeError
   \<and> fst (refresh_image (fst (update_image (fst (update_image g A)) B))) = Some B
   \<and> fst (refresh_image (snd (refresh_image (fst (update_image (fst (update_image g A)) B)))))
       = None
   \<and> fst (refresh_image (foldl (\<lambda>h im. fst (update_image h im)) g (ims @ [B]))) = Some B"
  by (simp add: update_image_def refresh_image_def Let_def)

text \<open>
  C3 fails on the code. The claim: a publish that follows another publish with no take in
  between always succeeds at once and overwrites the pending frame. The docstring of
  \<^verbatim>\<open>update_image\<close> says that it "will release a lock to notify the other thread". The
  code stores the image and then calls \<^verbatim>\<open>self.img_mutex.release()\<close> without looking at
  the lock: on the second of two updates in a row the lock is already free and the
  release raises \<^verbatim>\<open>RuntimeError\<close>. Here the GUI is in its initial state and gets two
  1 by 1 images one after the other.
\<close>

theorem update_image_twice_raises:
  "snd (update_image
          (fst (update_image gui_init \<lparr>im_mode = RGB, im_size = (1, 1), im_data = [1, 2, 3]\<rparr>))
          \<lparr>im_mode = RGB, im_size = (1, 1), im_data = [4, 5, 6]\<rparr>)
     = Some RuntimeError"
  by (simp add: update_image_def gui_init_def Let_def)

text \<open>
  C8. \<^verbatim>\<open>refresh_image\<close> is a total function of the GUI state (the non-blocking
  \<^verbatim>\<open>acquire\<close> returns at once). It draws nothing on the initial state and nothing right
  after another \<^verbatim>\<open>refresh_image\<close>; after an update it draws that image and takes the
  lock again, so the slot is empty afterwards.
\<close>

theorem refresh_image_try_take:
  "refresh_image gui_init = (None, gui_init)
   \<and> refresh_image (snd (refresh_image g)) = (None, snd (refresh_image g))
   \<and> fst (refresh_image (fst (update_image g im))) = Some im
   \<and> img_mutex_locked (snd (refresh_image (fst (update_image g im))))"
  by (simp add: update_image_def refresh_image_def gui_init_def Let_def)

subsection \<open>Line endings\<close>



subsection \<open>Chunk boundaries\<close>

text \<open>
  C4. However the bytes are split into chunks, and whenever the outer loop polls between
  their arrivals (\<open>sched\<close> is any interleaving of arrivals and polls), the receiver, once
  it has read everything, is in the state it reaches when all the bytes arrive as one
  chunk: same log of emitted frames, same \<^verbatim>\<open>rx_buf\<close> and \<^verbatim>\<open>rx_mode\<close>, which live across
  reads. The bytes arrived under a schedule of arrivals alone are the chunks concatenated.
\<close>

theorem chunk_boundary_independence:
  "drain Image_open (fst (exec Image_open (s, []) sched)) (snd (exec Image_open (s, []) sched))
     = drain Image_open s (arrived sched)
   \<and> arrived (map Arrive chunks) = concat chunks"
proof
  show "drain Image_open (fst (exec Image_open (s, []) sched)) (snd (exec Image_open (s, []) sched))
     = drain Image_open s (arrived sched)" using exec_reads [of Image_open s "[]" sched]
    by (simp add: drain_rx_bytes)
  show "arrived (map Arrive chunks) = concat chunks"
    by (induction chunks) simp_all
qed

subsection \<open>Connecting\<close>

text \<open>
  What \<^verbatim>\<open>connect\<close> does in general: it calls \<^verbatim>\<open>close\<close> first, whatever the state of
  the port, then \<^verbatim>\<open>open\<close> once for the named port at the given rate, unless the rate is
  negative; the port is open afterwards exactly when the result is \<^verbatim>\<open>OK\<close>.
\<close>

lemma connect_close_open_once:
  "calls (fst (connect can_open ser p b))
     = calls ser @ Close # (if b < 0 then [] else [Open p b])
   \<and> snd (connect can_open ser p b)
     = (if b < 0 then Inl ValueError else if can_open p b then Inr OK else Inr ERR)
   \<and> is_open (fst (connect can_open ser p b)) = (snd (connect can_open ser p b) = Inr OK)
   \<and> port (fst (connect can_open ser p b)) = Some p"
  by (simp add: connect_def ser_close_def ser_set_baudrate_def ser_open_def Let_def)

text \<open>
  C9 fails on the code. The claim: \<^verbatim>\<open>connect\<close> closes, then attempts to open the named
  port at the given rate, and on failure reports the error to its caller. The call of
  \<^verbatim>\<open>open\<close> is inside a \<^verbatim>\<open>try\<close> whose handler returns \<^verbatim>\<open>ERR\<close>, but the assignment
  \<^verbatim>\<open>self.ser.baudrate = baud_rate\<close> before it is outside any \<^verbatim>\<open>try\<close>. With the baud
  rate \<open>-1\<close>, on a port that could be opened, \<^verbatim>\<open>connect\<close> closes the port and then
  leaves by the \<^verbatim>\<open>ValueError\<close> of the assignment: \<^verbatim>\<open>open\<close> is never called and no
  return code reaches the caller.
\<close>

theorem connect_negative_baud_escapes:
  "connect (\<lambda>p b. True) ser_init ''COM3'' (- 1)
     = (\<lparr>is_open = False, port = Some ''COM3'', baudrate = 9600, calls = [Close]\<rparr>,
        Inl ValueError)"
  by (simp add: connect_def ser_init_def ser_close_def ser_set_baudrate_def)


subsection \<open>A well-formed RGB888 frame\<close>

text \<open>
  C6. From a receiver that is scanning with an empty buffer, the base64 text of the header
  \<^verbatim>\<open>FF A0 FF 02 04 00 00 00 02 00 00 00\<close> followed by 24 data bytes, ended by carriage
  return and line feed, makes the receiver emit that one frame and call
  \<^verbatim>\<open>update_image\<close> exactly once, with an image of size 4 by 2 whose pixel bytes are the
  24 data bytes; the display's next \<^verbatim>\<open>refresh_image\<close> draws it. The receiver is
  scanning with an empty buffer again.
\<close>

theorem rgb888_frame_published:
  assumes m: "rx_mode s = RX_STRING" and e: "rx_buf s = []" and d: "length data = 24"
  shows "log (drain Image_open s
                (b64encode ([0xFF, 0xA0, 0xFF, 2, 4, 0, 0, 0, 2, 0, 0, 0] @ data) @ [13, 10]))
           = log s @ [Emit RX_EIML (b64encode ([0xFF, 0xA0, 0xFF, 2, 4, 0, 0, 0, 2, 0, 0, 0] @ data)),
                      Publish \<lparr>im_mode = RGB, im_size = (4, 2), im_data = data\<rparr>]
         \<and> fst (refresh_image (gui (drain Image_open s
                (b64encode ([0xFF, 0xA0, 0xFF, 2, 4, 0, 0, 0, 2, 0, 0, 0] @ data) @ [13, 10]))))
           = Some \<lparr>im_mode = RGB, im_size = (4, 2), im_data = data\<rparr>
         \<and> rx_mode (drain Image_open s
                (b64encode ([0xFF, 0xA0, 0xFF, 2, 4, 0, 0, 0, 2, 0, 0, 0] @ data) @ [13, 10]))
           = RX_STRING
         \<and> rx_buf (drain Image_open s
                (b64encode ([0xFF, 0xA0, 0xFF, 2, 4, 0, 0, 0, 2, 0, 0, 0] @ data) @ [13, 10]))
           = []"
proof -
  let ?msg = "0xFF # 0xA0 # 0xFF # 2 # 4 # 0 # 0 # 0 # 2 # 0 # 0 # 0 # data"
  let ?p = "b64encode ?msg"
  let ?fr = "\<lparr>im_mode = RGB, im_size = (4, 2), im_data = data\<rparr>"
  let ?s0 = "s\<lparr>rx_mode := RX_STRING, rx_buf := ?p, log := log s @ [Emit RX_EIML ?p]\<rparr>"
  have t: "fst (eiml_try ?s0) =
      ?s0\<lparr>idx := Some 12, img := Some ?fr,
          gui := (gui ?s0)\<lparr>gui_img := Some ?fr, img_mutex_locked := False\<rparr>,
          log := log ?s0 @ [Publish ?fr]\<rparr>"
    by (rule eiml_try_rgb) (simp_all add: d del: b64encode.simps)
  have "drain Image_open s (?p @ [13, 10]) = (fst (eiml_try ?s0))\<lparr>rx_buf := []\<rparr>"
    by (simp only: drain_rx_bytes eiml_line [OF m e] Let_def t) simp
  then show ?thesis
    by (simp add: t refresh_image_def del: b64encode.simps)
qed

text \<open>The scenario with the pixel bytes 1 to 24, from the receiver's initial state.\<close>

theorem rgb888_frame_published_witness:
  "rx_mode rx_init = RX_STRING \<and> rx_buf rx_init = []
   \<and> length [1, 2, 3, 4, 5, 6, 7, 8, 9, 10, 11, 12, 13, 14, 15, 16, 17, 18, 19, 20, 21, 22, 23, 24 :: byte] = 24
   \<and> log (drain (\<lambda>d. Inl ImageError) rx_init
        (b64encode ([0xFF, 0xA0, 0xFF, 2, 4, 0, 0, 0, 2, 0, 0, 0]
           @ [1, 2, 3, 4, 5, 6, 7, 8, 9, 10, 11, 12, 13, 14, 15, 16, 17, 18, 19, 20, 21, 22, 23, 24])
         @ [13, 10]))
     = [Emit RX_EIML (b64encode ([0xFF, 0xA0, 0xFF, 2, 4, 0, 0, 0, 2, 0, 0, 0]
           @ [1, 2, 3, 4, 5, 6, 7, 8, 9, 10, 11, 12, 13, 14, 15, 16, 17, 18, 19, 20, 21, 22, 23, 24])),
        Publish \<lparr>im_mode = RGB, im_size = (4, 2),
          im_data = [1, 2, 3, 4, 5, 6, 7, 8, 9, 10, 11, 12, 13, 14, 15, 16, 17, 18, 19, 20, 21, 22, 23, 24]\<rparr>]"
  using rgb888_frame_published [of rx_init
      "[1, 2, 3, 4, 5, 6, 7, 8, 9, 10, 11, 12, 13, 14, 15, 16, 17, 18, 19, 20, 21, 22, 23, 24]"
      "\<lambda>d. Inl ImageError"]
  by (simp add: rx_init_def del: b64encode.simps)

subsection \<open>Grayscale frames\<close>

text \<open>
  C7. A payload that decodes to a message with format byte 1 and exactly
  \<open>N = width * height\<close> bytes after the 12 header bytes gives an RGB image of that
  size with \<open>3 * N\<close> bytes, the three bytes of pixel \<open>i\<close> all equal to input byte
  \<open>i\<close>; that image is handed to \<^verbatim>\<open>update_image\<close>.
\<close>

theorem grayscale_replicated:
  assumes dec: "b64decode (rx_buf s) = Inr msg"
    and len: "3 < length msg"
    and fmt: "msg ! 3 = EIML_GRAYSCALE"
    and n: "length (drop 12 msg)
              = from_bytes_little (slice 4 8 msg) * from_bytes_little (slice 8 12 msg)"
  shows "\<exists>im. img (fst (eiml_try s)) = Some im
           \<and> log (fst (eiml_try s)) = log s @ [Publish im]
           \<and> im_mode im = RGB
           \<and> im_size im = (from_bytes_little (slice 4 8 msg), from_bytes_little (slice 8 12 msg))
           \<and> length (im_data im) = 3 * length (drop 12 msg)
           \<and> (\<forall>i < length (drop 12 msg).
                 im_data im ! (3 * i) = drop 12 msg ! i
               \<and> im_data im ! (3 * i + 1) = drop 12 msg ! i
               \<and> im_data im ! (3 * i + 2) = drop 12 msg ! i)"
proof -
  let ?w = "from_bytes_little (slice 4 8 msg)"
  let ?h = "from_bytes_little (slice 8 12 msg)"
  let ?data = "drop 12 msg"
  let ?im = "\<lparr>im_mode = RGB, im_size = (?w, ?h),
              im_data = concat (map (\<lambda>b. [b, b, b]) ?data)\<rparr>"
  have fb: "Image_frombytes L (?w, ?h) ?data
              = Inr \<lparr>im_mode = L, im_size = (?w, ?h), im_data = ?data\<rparr>"
    using n by (simp add: Image_frombytes_def bytes_per_pixel_def)
  have cv: "convert_RGB \<lparr>im_mode = L, im_size = (?w, ?h), im_data = ?data\<rparr> = ?im"
    by (simp add: convert_RGB_def)
  have t: "eiml_try s = call_update_image (s\<lparr>idx := Some 12, img := Some ?im\<rparr>)"
    by (simp add: eiml_try_header [OF dec len] fmt fb cv Let_def
          EIML_GRAYSCALE_def EIML_RGB888_def)
  have 1: "img (fst (eiml_try s)) = Some ?im"
    by (simp add: t call_update_image_fields)
  have 2: "log (fst (eiml_try s)) = log s @ [Publish ?im]"
    by (simp add: t call_update_image_log)
  have 3: "\<forall>i < length ?data.
                 im_data ?im ! (3 * i) = ?data ! i
               \<and> im_data ?im ! (3 * i + 1) = ?data ! i
               \<and> im_data ?im ! (3 * i + 2) = ?data ! i"
    using replicate3_nth [of _ ?data] by simp
  show ?thesis
    by (rule exI [of _ ?im]) (use 1 2 3 in \<open>simp add: replicate3_length\<close>)
qed

text \<open>
  The payload \<^verbatim>\<open>/6D/AQIAAAABAAAAqrs=\<close>: a grayscale image of size 2 by 1 with the
  pixels \<^verbatim>\<open>AA\<close> and \<^verbatim>\<open>BB\<close>.
\<close>

theorem grayscale_replicated_witness:
  "b64decode (rx_buf (rx_init\<lparr>rx_buf :=
       [47, 54, 68, 47, 65, 81, 73, 65, 65, 65, 65, 66, 65, 65, 65, 65, 113, 114, 115, 61]\<rparr>))
     = Inr [0xFF, 0xA0, 0xFF, 1, 2, 0, 0, 0, 1, 0, 0, 0, 0xAA, 0xBB]
   \<and> (\<exists>im. img (fst (eiml_try (rx_init\<lparr>rx_buf :=
       [47, 54, 68, 47, 65, 81, 73, 65, 65, 65, 65, 66, 65, 65, 65, 65, 113, 114, 115, 61]\<rparr>)))
           = Some im
         \<and> im_mode im = RGB \<and> im_size im = (2, 1) \<and> length (im_data im) = 6
         \<and> im_data im ! 0 = 0xAA \<and> im_data im ! 1 = 0xAA \<and> im_data im ! 2 = 0xAA
         \<and> im_data im ! 3 = 0xBB \<and> im_data im ! 4 = 0xBB \<and> im_data im ! 5 = 0xBB)"
proof -
  let ?s = "rx_init\<lparr>rx_buf :=
       [47, 54, 68, 47, 65, 81, 73, 65, 65, 65, 65, 66, 65, 65, 65, 65, 113, 114, 115, 61]\<rparr>"
  let ?msg = "[0xFF, 0xA0, 0xFF, 1, 2, 0, 0, 0, 1, 0, 0, 0, 0xAA, 0xBB] :: byte list"
  have dec: "b64decode (rx_buf ?s) = Inr ?msg"
    by (simp add: b64decode_def BASE64_PAD_def table_a2b_base64_def)
  have len: "3 < length ?msg" by simp
  have fmt: "?msg ! 3 = EIML_GRAYSCALE" by (simp add: EIML_GRAYSCALE_def)
  have n: "length (drop 12 ?msg)
              = from_bytes_little (slice 4 8 ?msg) * from_bytes_little (slice 8 12 ?msg)"
    by (simp add: slice_def)
  from grayscale_replicated [OF dec len fmt n]
  obtain im where im: "img (fst (eiml_try ?s)) = Some im"
    "im_mode im = RGB"
    "im_size im = (from_bytes_little (slice 4 8 ?msg), from_bytes_little (slice 8 12 ?msg))"
    "length (im_data im) = 3 * length (drop 12 ?msg)"
    and px: "\<forall>i < length (drop 12 ?msg).
                 im_data im ! (3 * i) = drop 12 ?msg ! i
               \<and> im_data im ! (3 * i + 1) = drop 12 ?msg ! i
               \<and> im_data im ! (3 * i + 2) = drop 12 ?msg ! i"
    by blast
  from px [rule_format, of 0] px [rule_format, of 1]
  have "im_data im ! 0 = 0xAA \<and> im_data im ! 1 = 0xAA \<and> im_data im ! 2 = 0xAA
         \<and> im_data im ! 3 = 0xBB \<and> im_data im ! 4 = 0xBB \<and> im_data im ! 5 = 0xBB"
    by (simp add: numeral_2_eq_2)
  moreover from im(3) have "im_size im = (2, 1)" by (simp add: slice_def)
  moreover from im(4) have "length (im_data im) = 6" by simp
  ultimately show ?thesis using dec im(1) im(2) by blast
qed

subsection \<open>Payloads shorter than the header declares\<close>

text \<open>
  C2. The receiver is collecting an EIML frame and reads the line feed. If the payload
  decodes to a message with format byte grayscale or RGB888 whose bytes after the 12
  header bytes are fewer than \<open>width * height * bytes per pixel\<close> (1 for grayscale, 3
  for RGB888), the frame is dropped: \<^verbatim>\<open>update_image\<close> is not called (the GUI and the
  local \<^verbatim>\<open>img\<close> are unchanged and the log gains the emitted payload only), no exception
  leaves the loop, and the receiver is scanning again with an empty buffer. The pixel
  bytes are only reached through \<^verbatim>\<open>Image.frombytes\<close>, which raises on short data.
\<close>

theorem short_payload_rejected:
  assumes m: "rx_mode s = RX_EIML"
    and dec: "b64decode (strip2 (rx_buf s @ [10])) = Inr msg"
    and len: "3 < length msg"
    and fmt: "msg ! 3 = EIML_GRAYSCALE \<or> msg ! 3 = EIML_RGB888"
    and short: "length (drop 12 msg)
                  < from_bytes_little (slice 4 8 msg) * from_bytes_little (slice 8 12 msg)
                      * (if msg ! 3 = EIML_GRAYSCALE then 1 else 3)"
  shows "rx_byte Image_open s 10 =
           (s\<lparr>rx_mode := RX_STRING, rx_buf := [], idx := Some 12,
              log := log s @ [Emit RX_EIML (strip2 (rx_buf s @ [10]))]\<rparr>, False)"
proof -
  let ?p = "strip2 (rx_buf s @ [10])"
  let ?s0 = "s\<lparr>rx_mode := RX_STRING, rx_buf := ?p, log := log s @ [Emit RX_EIML ?p]\<rparr>"
  let ?w = "from_bytes_little (slice 4 8 msg)"
  let ?h = "from_bytes_little (slice 8 12 msg)"
  have dec0: "b64decode (rx_buf ?s0) = Inr msg"
    using dec by simp
  have t: "eiml_try ?s0 = (?s0\<lparr>idx := Some 12\<rparr>, True)"
  proof (cases "msg ! 3 = EIML_GRAYSCALE")
    case True
    with short have "Image_frombytes L (?w, ?h) (drop 12 msg) = Inl ValueError"
      by (simp add: Image_frombytes_def bytes_per_pixel_def)
    with True show ?thesis
      by (simp add: eiml_try_header [OF dec0 len] Let_def EIML_GRAYSCALE_def EIML_RGB888_def)
  next
    case False
    with fmt have r: "msg ! 3 = EIML_RGB888" by simp
    from False short have "Image_frombytes RGB (?w, ?h) (drop 12 msg) = Inl ValueError"
      by (simp add: Image_frombytes_def bytes_per_pixel_def)
    with r show ?thesis
      by (simp add: eiml_try_header [OF dec0 len] Let_def)
  qed
  show ?thesis
    by (simp add: rx_byte_eiml_lf [OF m] Let_def t)
qed

text \<open>
  The scenario of the spec: the header declares RGB888, width 4 and height 2 (24 bytes),
  and 20 bytes follow it.
\<close>

theorem short_payload_rejected_witness:
  "rx_mode (rx_init\<lparr>rx_mode := RX_EIML,
       rx_buf := b64encode ([0xFF, 0xA0, 0xFF, 2, 4, 0, 0, 0, 2, 0, 0, 0]
                   @ [1, 2, 3, 4, 5, 6, 7, 8, 9, 10, 11, 12, 13, 14, 15, 16, 17, 18, 19, 20])
                 @ [13]\<rparr>) = RX_EIML
   \<and> b64decode (strip2 (rx_buf (rx_init\<lparr>rx_mode := RX_EIML,
       rx_buf := b64encode ([0xFF, 0xA0, 0xFF, 2, 4, 0, 0, 0, 2, 0, 0, 0]
                   @ [1, 2, 3, 4, 5, 6, 7, 8, 9, 10, 11, 12, 13, 14, 15, 16, 17, 18, 19, 20])
                 @ [13]\<rparr>) @ [10]))
       = Inr ([0xFF, 0xA0, 0xFF, 2, 4, 0, 0, 0, 2, 0, 0, 0]
                   @ [1, 2, 3, 4, 5, 6, 7, 8, 9, 10, 11, 12, 13, 14, 15, 16, 17, 18, 19, 20])
   \<and> snd (rx_byte (\<lambda>d. Inl ImageError) (rx_init\<lparr>rx_mode := RX_EIML,
       rx_buf := b64encode ([0xFF, 0xA0, 0xFF, 2, 4, 0, 0, 0, 2, 0, 0, 0]
                   @ [1, 2, 3, 4, 5, 6, 7, 8, 9, 10, 11, 12, 13, 14, 15, 16, 17, 18, 19, 20])
                 @ [13]\<rparr>) 10) = False
   \<and> gui (fst (rx_byte (\<lambda>d. Inl ImageError) (rx_init\<lparr>rx_mode := RX_EIML,
       rx_buf := b64encode ([0xFF, 0xA0, 0xFF, 2, 4, 0, 0, 0, 2, 0, 0, 0]
                   @ [1, 2, 3, 4, 5, 6, 7, 8, 9, 10, 11, 12, 13, 14, 15, 16, 17, 18, 19, 20])
                 @ [13]\<rparr>) 10)) = gui_init
   \<and> rx_buf (fst (rx_byte (\<lambda>d. Inl ImageError) (rx_init\<lparr>rx_mode := RX_EIML,
       rx_buf := b64encode ([0xFF, 0xA0, 0xFF, 2, 4, 0, 0, 0, 2, 0, 0, 0]
                   @ [1, 2, 3, 4, 5, 6, 7, 8, 9, 10, 11, 12, 13, 14, 15, 16, 17, 18, 19, 20])
                 @ [13]\<rparr>) 10)) = []"
proof -
  let ?msg = "[0xFF, 0xA0, 0xFF, 2, 4, 0, 0, 0, 2, 0, 0, 0]
                   @ [1, 2, 3, 4, 5, 6, 7, 8, 9, 10, 11, 12, 13, 14, 15, 16, 17, 18, 19, 20 :: byte]"
  let ?s = "rx_init\<lparr>rx_mode := RX_EIML, rx_buf := b64encode ?msg @ [13]\<rparr>"
  have m: "rx_mode ?s = RX_EIML" by simp
  have dec: "b64decode (strip2 (rx_buf ?s @ [10])) = Inr ?msg"
    by (simp add: strip2_def b64decode_b64encode del: b64encode.simps)
  have len: "3 < length ?msg" by simp
  have fmt: "?msg ! 3 = EIML_GRAYSCALE \<or> ?msg ! 3 = EIML_RGB888"
    by (simp add: EIML_RGB888_def)
  have short: "length (drop 12 ?msg)
                  < from_bytes_little (slice 4 8 ?msg) * from_bytes_little (slice 8 12 ?msg)
                      * (if ?msg ! 3 = EIML_GRAYSCALE then 1 else 3)"
    by (simp add: slice_def EIML_GRAYSCALE_def)
  from short_payload_rejected [OF m dec len fmt short, of "\<lambda>d. Inl ImageError"] m dec
  show ?thesis
    by (simp add: rx_init_def del: b64encode.simps)
qed

subsection \<open>The start marker\<close>







subsection \<open>The reserved pixel format\<close>

text \<open>
  C1 fails on the code. For a format byte other than 1 and 2 the EIML branch assigns
  nothing to \<^verbatim>\<open>img\<close> and still calls \<^verbatim>\<open>update_image(img)\<close>. On the first frame
  \<^verbatim>\<open>img\<close> is unbound and the frame is dropped; after any decoded frame \<^verbatim>\<open>img\<close> still
  holds that frame's image, which is published again. Here the receiver gets the grayscale
  frame \<^verbatim>\<open>/6D/AQEAAAABAAAAgA==\<close> (1 by 1, pixel \<^verbatim>\<open>80\<close>), the display draws it, and the
  receiver then gets \<^verbatim>\<open>/6D/AAEAAAABAAAAgA==\<close>, the same frame with format byte 0:
  \<^verbatim>\<open>update_image\<close> is called a second time with the first image, and the display's next
  \<^verbatim>\<open>refresh_image\<close> draws it again.
\<close>

theorem reserved_format_republishes:
  "log (sys_run (\<lambda>d. Inl ImageError)
         (map Rx [47, 54, 68, 47, 65, 81, 69, 65, 65, 65, 65, 66, 65, 65, 65, 65, 103, 65, 61, 61, 13, 10]
          @ [Refresh]
          @ map Rx [47, 54, 68, 47, 65, 65, 69, 65, 65, 65, 65, 66, 65, 65, 65, 65, 103, 65, 61, 61, 13, 10]))
     = [Emit RX_EIML [47, 54, 68, 47, 65, 81, 69, 65, 65, 65, 65, 66, 65, 65, 65, 65, 103, 65, 61, 61],
        Publish \<lparr>im_mode = RGB, im_size = (1, 1), im_data = [0x80, 0x80, 0x80]\<rparr>,
        Emit RX_EIML [47, 54, 68, 47, 65, 65, 69, 65, 65, 65, 65, 66, 65, 65, 65, 65, 103, 65, 61, 61],
        Publish \<lparr>im_mode = RGB, im_size = (1, 1), im_data = [0x80, 0x80, 0x80]\<rparr>]
   \<and> fst (refresh_image (gui (sys_run (\<lambda>d. Inl ImageError)
         (map Rx [47, 54, 68, 47, 65, 81, 69, 65, 65, 65, 65, 66, 65, 65, 65, 65, 103, 65, 61, 61, 13, 10]
          @ [Refresh]
          @ map Rx [47, 54, 68, 47, 65, 65, 69, 65, 65, 65, 65, 66, 65, 65, 65, 65, 103, 65, 61, 61, 13, 10]))))
     = Some \<lparr>im_mode = RGB, im_size = (1, 1), im_data = [0x80, 0x80, 0x80]\<rparr>"
  by (simp add: sys_run_def rx_init_def gui_init_def rx_byte_def Let_def
        EIML_SOF_B64_def JPEG_SOF_B64_def strip2_def eiml_try_def b64decode_def
        BASE64_PAD_def table_a2b_base64_def slice_def
        EIML_SOF_SIZE_def EIML_FORMAT_SIZE_def EIML_WIDTH_SIZE_def EIML_HEIGHT_SIZE_def
        EIML_RGB888_def EIML_GRAYSCALE_def Image_frombytes_def bytes_per_pixel_def
        convert_RGB_def call_update_image_def update_image_def refresh_image_def)


end
